theory Spec2Isabelle
  imports Complex_Main
begin

section \<open>Room codes\<close>

text \<open>
  The group-study component draws a room code from two word lists and a number:
  \<^verbatim>\<open>
  const word1 = ["HAPPY", "LAZY", "BRIGHT", "QUICK", "SILENT", "SPARK"];
  const word2 = ["FOX", "CUP", "TREE", "RIVER", "STONE", "CLOUD"];
  const generateRoomCode = () =>
    `${word1[Math.floor(Math.random()*word1.length)]}-${word2[Math.floor(Math.random()*word2.length)]}-${Math.floor(Math.random()*90)+10}`;
  \<close>
  The three calls of \<open>Math.random\<close> are the three arguments of the model, in the order
  in which the template evaluates them.
\<close>

definition word1 :: "string list" where
  "word1 = [''HAPPY'', ''LAZY'', ''BRIGHT'', ''QUICK'', ''SILENT'', ''SPARK'']"

definition word2 :: "string list" where
  "word2 = [''FOX'', ''CUP'', ''TREE'', ''RIVER'', ''STONE'', ''CLOUD'']"

text \<open>
  \<open>Math.random\<close> returns a double \<open>r\<close> with \<open>0 \<le> r < 1\<close>. A double has a significand of 53
  bits and a least exponent of \<open>-1074\<close>, so the doubles from \<open>0\<close> up to \<open>1\<close> are the
  numbers \<open>m / 2 ^ e\<close> below \<open>1\<close> with \<open>m < 2 ^ 53\<close> and \<open>e \<le> 1074\<close>. A draw is such a pair
  \<open>(m, e)\<close>.
\<close>

type_synonym draw = "nat \<times> nat"

definition draw_value :: "draw \<Rightarrow> rat" where
  "draw_value d = (case d of (m, e) \<Rightarrow> of_nat m / 2 ^ e)"

definition is_draw :: "draw \<Rightarrow> bool" where
  "is_draw d = (case d of (m, e) \<Rightarrow> m < 2 ^ 53 \<and> e \<le> 1074 \<and> m < 2 ^ e)"

definition draw_zero :: draw where
  "draw_zero = (0, 0)"

text \<open>
  \<open>Math.random() * n\<close> is a product of doubles: the exact product \<open>m * n / 2 ^ e\<close>, rounded
  to the nearest double, a tie going to the even significand. \<open>round53\<close> rounds a natural
  number to 53 significant bits in this way. The factors \<open>n\<close> of the source, \<open>6\<close> and \<open>90\<close>,
  are doubles themselves, and the products are too large to be subnormal when they need
  rounding, so that \<open>times_double\<close> is the product the program computes.
\<close>

fun bit_length :: "nat \<Rightarrow> nat" where
  "bit_length n = (if n = 0 then 0 else Suc (bit_length (n div 2)))"

declare bit_length.simps [simp del]

definition round53 :: "nat \<Rightarrow> nat" where
  "round53 p =
     (if p < 2 ^ 53 then p
      else
        let s = bit_length p - 53; q = p div 2 ^ s; r = p mod 2 ^ s
        in (if 2 ^ s < 2 * r \<or> (2 * r = 2 ^ s \<and> odd q) then q + 1 else q) * 2 ^ s)"

definition times_double :: "draw \<Rightarrow> nat \<Rightarrow> rat" where
  "times_double d n = (case d of (m, e) \<Rightarrow> of_nat (round53 (m * n)) / 2 ^ e)"

text \<open>Reading an array outside its bounds gives \<open>undefined\<close>, which a template prints.\<close>

definition index_str :: "string list \<Rightarrow> int \<Rightarrow> string" where
  "index_str xs i = (if 0 \<le> i \<and> nat i < length xs then xs ! nat i else ''undefined'')"

definition digit_char :: "nat \<Rightarrow> char" where
  "digit_char d = char_of (48 + d)"

fun nat_to_string :: "nat \<Rightarrow> string" where
  "nat_to_string n =
     (if n < 10 then [digit_char n] else nat_to_string (n div 10) @ [digit_char (n mod 10)])"

definition int_to_string :: "int \<Rightarrow> string" where
  "int_to_string i = (if i < 0 then CHR ''-'' # nat_to_string (nat (- i)) else nat_to_string (nat i))"

definition generateRoomCode :: "draw \<Rightarrow> draw \<Rightarrow> draw \<Rightarrow> string" where
  "generateRoomCode r1 r2 r3 =
     index_str word1 \<lfloor>times_double r1 (length word1)\<rfloor> @ ''-'' @
     index_str word2 \<lfloor>times_double r2 (length word2)\<rfloor> @ ''-'' @
     int_to_string (\<lfloor>times_double r3 90\<rfloor> + 10)"

text \<open>
  The format \<open>^[A-Z]+-[A-Z]+-\d{2}$\<close> as a function on strings. A hyphen is not an
  upper-case letter, so the longest run of upper-case letters is the only candidate for
  each \<open>[A-Z]+\<close>.
\<close>

definition is_upper :: "char \<Rightarrow> bool" where
  "is_upper c = (65 \<le> (of_char c :: nat) \<and> (of_char c :: nat) \<le> 90)"

definition is_digit :: "char \<Rightarrow> bool" where
  "is_digit c = (48 \<le> (of_char c :: nat) \<and> (of_char c :: nat) \<le> 57)"

definition matches_code_format :: "string \<Rightarrow> bool" where
  "matches_code_format s =
     (takeWhile is_upper s \<noteq> [] \<and>
      (case dropWhile is_upper s of
         [] \<Rightarrow> False
       | h1 # t1 \<Rightarrow>
           h1 = CHR ''-'' \<and> takeWhile is_upper t1 \<noteq> [] \<and>
           (case dropWhile is_upper t1 of
              [h2, d1, d2] \<Rightarrow> h2 = CHR ''-'' \<and> is_digit d1 \<and> is_digit d2
            | _ \<Rightarrow> False)))"

section \<open>The session document\<close>

text \<open>
  The types of \<^verbatim>\<open>types.ts\<close> that a session document holds. A field of the source whose
  name is taken in HOL carries a suffix. What \<open>JSON.parse\<close> returns is a value of type
  \<open>json\<close> (numbers restricted to integers; an object is its list of properties).
\<close>

datatype json =
    JNull
  | JBool bool
  | JNum int
  | JStr string
  | JArr "json list"
  | JObj "(string \<times> json) list"

record Participant =
  uid :: string
  name :: string
  photoURL :: string

record GroupChatMessage =
  id_msg :: string
  senderId :: string
  senderName :: string
  text_msg :: string
  timestamp :: nat

record Flashcard =
  question :: string
  answer :: string

record SharedNoteBlock =
  id_block :: string
  authorId :: string
  authorName :: string
  notes_block :: json

record GroupQuizState =
  flashcards :: "Flashcard list"
  currentQuestionIndex :: nat
  scores :: "string \<rightharpoonup> int"
  isComplete :: bool
  quizMasterId :: string
  answered :: "string \<rightharpoonup> bool"
  isRevealed :: bool

record Permission =
  canShare :: bool

type_synonym Permissions = "string \<rightharpoonup> Permission"

record Session =
  hostId :: string
  participants :: "Participant list"
  chatMessages :: "GroupChatMessage list"
  sharedNotes :: "SharedNoteBlock list"
  sharedFlashcards :: "Flashcard list"
  quizState :: "GroupQuizState option"
  permissions :: Permissions
  createdAt :: nat

text \<open>The signed-in user of \<^verbatim>\<open>firebase/auth\<close>: \<open>displayName\<close> and \<open>photoURL\<close> may be null.\<close>

record User =
  uid_user :: string
  displayName :: "string option"
  photoURL_user :: "string option"

text \<open>\<open>x || d\<close> on a string that may be null: null and the empty string are falsy.\<close>

definition or_default :: "string option \<Rightarrow> string \<Rightarrow> string" where
  "or_default x d = (case x of None \<Rightarrow> d | Some s \<Rightarrow> if s = [] then d else s)"

text \<open>
  Both handlers build the caller's participant entry the same way:
  \<^verbatim>\<open>{ uid: user.uid, name: user.displayName || 'Anonymous', photoURL: user.photoURL || '' }\<close>
\<close>

definition newParticipant :: "User \<Rightarrow> Participant" where
  "newParticipant u =
     \<lparr>uid = uid_user u,
      name = or_default (displayName u) ''Anonymous'',
      photoURL = or_default (photoURL_user u) []\<rparr>"

section \<open>Clients, the store and the world\<close>

text \<open>
  One mounted \<open>GroupStudy\<close> component is a client: its \<open>user\<close> prop, the React state the
  handlers read and set, and \<open>unsubscribeRef\<close>, which holds the code of the document the
  client listens to (\<open>None\<close> for a null ref).

  The Firestore collection \<^verbatim>\<open>group_sessions\<close> is a map from document id to document. The
  SDK is not part of the repository; the model takes from its documentation that
  \<open>setDoc\<close> writes the document whether or not one exists, \<open>updateDoc\<close> rejects when the
  document does not exist, \<open>arrayUnion\<close> adds an element that the array does not hold
  yet, \<open>deleteField\<close> removes a key, a batch delete of a missing document succeeds, and
  a listener receives the document when it is attached and after every change. Document
  ids and uids are opaque keys of these maps: a room code without a slash, and a uid that
  is one segment of a field path (not empty, without a dot), as Firebase Auth issues them.

  The world is sequential: a handler runs to its end, and the snapshots of its write
  reach the listeners, before the next handler starts. Every call of the SDK is recorded
  in \<open>calls\<close>. A handler that awaits the store takes a flag that says whether the
  backend accepts the call; \<open>False\<close> is a rejected promise.
\<close>

record Client =
  user :: User
  roomCode :: string
  inputRoomCode :: string
  sessionData :: "Session option"
  unsubscribeRef :: "string option"
  notesInput :: string
  isLoading :: bool
  error :: "string option"

datatype StoreCall =
    SetDoc string
  | GetDoc string
  | UpdateDoc string
  | BatchDelete string
  | OnSnapshot string
  | Unsubscribe string

record World =
  store :: "string \<rightharpoonup> Session"
  clients :: "nat \<Rightarrow> Client"
  calls :: "StoreCall list"

definition upd_client :: "nat \<Rightarrow> (Client \<Rightarrow> Client) \<Rightarrow> World \<Rightarrow> World" where
  "upd_client i f w = w\<lparr>clients := (clients w)(i := f (clients w i))\<rparr>"

definition record_call :: "StoreCall \<Rightarrow> World \<Rightarrow> World" where
  "record_call c w = w\<lparr>calls := calls w @ [c]\<rparr>"

text \<open>
  The listener that \<open>subscribeToSession\<close> installs:
  \<^verbatim>\<open>
  (doc) => { if (doc.exists()) { setSessionData(doc.data()); }
             else { setError("The session has ended."); handleLeaveRoom(); } }
  \<close>
  \<open>subscribeToSession\<close> is only called from \<open>handleCreateRoom\<close> and \<open>handleJoinRoom\<close>, which
  the lobby offers, and the lobby is rendered only while \<open>roomCode\<close> is empty. The
  \<open>handleLeaveRoom\<close> the listener closes over is the one of that render: its \<open>roomCode\<close> is
  empty, so its first line returns and the call changes nothing.
\<close>

definition snapshot_listener :: "Session option \<Rightarrow> Client \<Rightarrow> Client" where
  "snapshot_listener snap c =
     (case snap of
        Some d \<Rightarrow> c\<lparr>sessionData := Some d\<rparr>
      | None \<Rightarrow> c\<lparr>error := Some ''The session has ended.''\<rparr>)"

definition deliver :: "string \<Rightarrow> World \<Rightarrow> World" where
  "deliver code w =
     w\<lparr>clients := (\<lambda>i. if unsubscribeRef (clients w i) = Some code
                         then snapshot_listener (store w code) (clients w i)
                         else clients w i)\<rparr>"

text \<open>
  \<open>setDoc\<close> and \<open>updateDoc\<close> return whether the promise resolved, and the world after
  the call.
\<close>

definition setDoc :: "bool \<Rightarrow> string \<Rightarrow> Session \<Rightarrow> World \<Rightarrow> bool \<times> World" where
  "setDoc ok code d w =
     (let w1 = record_call (SetDoc code) w in
      if ok then (True, deliver code (w1\<lparr>store := (store w)(code \<mapsto> d)\<rparr>))
      else (False, w1))"

definition updateDoc :: "bool \<Rightarrow> string \<Rightarrow> (Session \<Rightarrow> Session) \<Rightarrow> World \<Rightarrow> bool \<times> World" where
  "updateDoc ok code f w =
     (let w1 = record_call (UpdateDoc code) w in
      case store w code of
        None \<Rightarrow> (False, w1)
      | Some d \<Rightarrow>
          if ok then (True, deliver code (w1\<lparr>store := (store w)(code \<mapsto> f d)\<rparr>))
          else (False, w1))"

definition batchDelete :: "bool \<Rightarrow> string \<Rightarrow> World \<Rightarrow> World" where
  "batchDelete ok code w =
     (let w1 = record_call (BatchDelete code) w in
      if ok \<and> store w code \<noteq> None then deliver code (w1\<lparr>store := (store w)(code := None)\<rparr>)
      else w1)"

definition arrayUnion :: "'a list \<Rightarrow> 'a \<Rightarrow> 'a list" where
  "arrayUnion xs x = (if x \<in> set xs then xs else xs @ [x])"

definition subscribeToSession :: "nat \<Rightarrow> string \<Rightarrow> World \<Rightarrow> World" where
  "subscribeToSession i code w =
     upd_client i (snapshot_listener (store w code))
       (upd_client i (\<lambda>c. c\<lparr>unsubscribeRef := Some code\<rparr>) (record_call (OnSnapshot code) w))"

section \<open>The handlers\<close>

text \<open>
  A character of the model is a code point below 256. \<open>trim\<close> strips the white space and
  the line terminators of ECMAScript in that range: U+0009 to U+000D, U+0020 and U+00A0.
  \<open>toUpperCase\<close> maps a letter to its capital: the letters a to z, and the accented
  letters from U+00E0 to U+00FE without the division sign, lie 32 above their capitals,
  and the sharp s (U+00DF) becomes SS. The capitals of the micro sign (U+00B5) and of the
  y with diaeresis (U+00FF) lie above 255: the model leaves these two letters as they
  are, and a string that holds one of them is outside it.
\<close>

definition is_space :: "char \<Rightarrow> bool" where
  "is_space c =
     ((9 \<le> (of_char c :: nat) \<and> (of_char c :: nat) \<le> 13) \<or> (of_char c :: nat) = 32 \<or>
      (of_char c :: nat) = 160)"

definition trim :: "string \<Rightarrow> string" where
  "trim s = rev (dropWhile is_space (rev (dropWhile is_space s)))"

definition is_lower :: "char \<Rightarrow> bool" where
  "is_lower c =
     ((97 \<le> (of_char c :: nat) \<and> (of_char c :: nat) \<le> 122) \<or>
      (224 \<le> (of_char c :: nat) \<and> (of_char c :: nat) \<le> 246) \<or>
      (248 \<le> (of_char c :: nat) \<and> (of_char c :: nat) \<le> 254))"

definition upper_char :: "char \<Rightarrow> string" where
  "upper_char c =
     (if is_lower c then [char_of ((of_char c :: nat) - 32)]
      else if (of_char c :: nat) = 223 then ''SS''
      else [c])"

definition toUpperCase :: "string \<Rightarrow> string" where
  "toUpperCase s = concat (map upper_char s)"

definition setError :: "string \<Rightarrow> Client \<Rightarrow> Client" where
  "setError msg c = c\<lparr>error := Some msg\<rparr>"

definition setRoomCode :: "string \<Rightarrow> Client \<Rightarrow> Client" where
  "setRoomCode code c = c\<lparr>roomCode := code\<rparr>"

text \<open>
  The component reads the snapshot with defaults:
  \<^verbatim>\<open>
  const { participants = [], ..., permissions = {}, hostId = '' } = sessionData || {};
  const isHost = user.uid === hostId;
  \<close>
\<close>

definition view_participants :: "Client \<Rightarrow> Participant list" where
  "view_participants c = (case sessionData c of None \<Rightarrow> [] | Some d \<Rightarrow> participants d)"

definition view_hostId :: "Client \<Rightarrow> string" where
  "view_hostId c = (case sessionData c of None \<Rightarrow> [] | Some d \<Rightarrow> hostId d)"

definition isHost :: "Client \<Rightarrow> bool" where
  "isHost c = (uid_user (user c) = view_hostId c)"

text \<open>
  \<open>handleCreateRoom\<close>: the three draws of the code, the time of \<open>new Date()\<close>, and whether
  the store accepts the \<open>setDoc\<close>.
\<close>

definition initialSessionData :: "User \<Rightarrow> nat \<Rightarrow> Session" where
  "initialSessionData u now =
     \<lparr>hostId = uid_user u,
      participants = [newParticipant u],
      chatMessages = [],
      sharedNotes = [],
      sharedFlashcards = [],
      quizState = None,
      permissions = [uid_user u \<mapsto> \<lparr>canShare = True\<rparr>],
      createdAt = now\<rparr>"

definition handleCreateRoom :: "nat \<Rightarrow> draw \<Rightarrow> draw \<Rightarrow> draw \<Rightarrow> nat \<Rightarrow> bool \<Rightarrow> World \<Rightarrow> World" where
  "handleCreateRoom i r1 r2 r3 now ok w =
     (let code = generateRoomCode r1 r2 r3;
          (done, w1) = setDoc ok code (initialSessionData (user (clients w i)) now) w
      in if done then subscribeToSession i code (upd_client i (setRoomCode code) w1)
         else upd_client i (setError ''Failed to create room.'') w1)"

text \<open>
  \<open>handleJoinRoom\<close>: whether \<open>getDoc\<close> resolves (it is awaited outside the \<open>try\<close>, so a
  rejection ends the handler) and whether the store accepts the \<open>updateDoc\<close>. The new
  \<open>permissions\<close> value is built from the document that \<open>getDoc\<close> returned.
\<close>

definition handleJoinRoom :: "nat \<Rightarrow> bool \<Rightarrow> bool \<Rightarrow> World \<Rightarrow> World" where
  "handleJoinRoom i getOk updOk w =
     (let code = toUpperCase (trim (inputRoomCode (clients w i))) in
      if code = [] then upd_client i (setError ''Please enter a room code.'') w
      else
        let w1 = record_call (GetDoc code) w in
        if \<not> getOk then w1
        else
          case store w code of
            Some docSnap \<Rightarrow>
              (let u = user (clients w i);
                   (done, w2) =
                     updateDoc updOk code
                       (\<lambda>s. s\<lparr>participants := arrayUnion (participants s) (newParticipant u),
                               permissions := (permissions docSnap)(uid_user u \<mapsto> \<lparr>canShare = False\<rparr>)\<rparr>)
                       w1
               in if done then subscribeToSession i code (upd_client i (setRoomCode code) w2)
                  else upd_client i (setError ''Failed to join room.'') w2)
          | None \<Rightarrow> upd_client i (setError ''Room not found.'') w1)"

text \<open>
  \<open>handleLeaveRoom\<close>: whether the store accepts the write. A failure inside the \<open>try\<close> is
  logged to the console and the handler goes on to reset the local state.
\<close>

definition unsubscribe :: "nat \<Rightarrow> World \<Rightarrow> World" where
  "unsubscribe i w =
     (case unsubscribeRef (clients w i) of
        None \<Rightarrow> w
      | Some code \<Rightarrow>
          upd_client i (\<lambda>c. c\<lparr>unsubscribeRef := None\<rparr>) (record_call (Unsubscribe code) w))"

definition transferHost :: "string \<Rightarrow> Participant list \<Rightarrow> Session \<Rightarrow> Session" where
  "transferHost newHostId newParticipants s =
     s\<lparr>hostId := newHostId,
       participants := newParticipants,
       permissions := (permissions s)(newHostId \<mapsto> \<lparr>canShare = True\<rparr>)\<rparr>"

definition removeParticipant :: "string \<Rightarrow> Participant list \<Rightarrow> Session \<Rightarrow> Session" where
  "removeParticipant leaver newParticipants s =
     s\<lparr>participants := newParticipants,
       permissions := (permissions s)(leaver := None)\<rparr>"

definition handleLeaveRoom :: "nat \<Rightarrow> bool \<Rightarrow> World \<Rightarrow> World" where
  "handleLeaveRoom i ok w =
     (let c = clients w i in
      if roomCode c = [] \<or> sessionData c = None then w
      else
        let w1 = unsubscribe i w;
            newParticipants = filter (\<lambda>p. uid p \<noteq> uid_user (user c)) (view_participants c);
            w2 = (if isHost c \<and> length newParticipants > 0 then
                    snd (updateDoc ok (roomCode c)
                           (transferHost (uid (hd newParticipants)) newParticipants) w1)
                  else if length newParticipants = 0 then
                    batchDelete ok (roomCode c) w1
                  else
                    snd (updateDoc ok (roomCode c)
                           (removeParticipant (uid_user (user c)) newParticipants) w1))
        in upd_client i (\<lambda>c. c\<lparr>roomCode := [], inputRoomCode := [], sessionData := None\<rparr>) w2)"

text \<open>
  \<open>handleGenerateNotes\<close>: what the oracle did (the call rejected, its text was not JSON,
  or \<open>JSON.parse\<close> returned a value), the id of \<open>crypto.randomUUID()\<close>, and whether the store
  accepts the \<open>updateDoc\<close>. Everything from the oracle call to the write is inside one
  \<open>try\<close>, whose \<open>catch\<close> sets the error; \<open>finally\<close> clears \<open>isLoading\<close>.
\<close>

datatype OracleResponse = Rejects | NotJson | Json json

definition falsy :: "json \<Rightarrow> bool" where
  "falsy v = (v = JNull \<or> v = JBool False \<or> v = JNum 0 \<or> v = JStr [])"

text \<open>
  \<open>parsedNotes.notes || []\<close>: reading a property of null throws a TypeError (\<open>None\<close>); a
  value that is not an object has no such property.
\<close>

definition notes_or_empty :: "json \<Rightarrow> json option" where
  "notes_or_empty parsedNotes =
     (case parsedNotes of
        JNull \<Rightarrow> None
      | JObj props \<Rightarrow>
          (case map_of props ''notes'' of
             None \<Rightarrow> Some (JArr [])
           | Some v \<Rightarrow> Some (if falsy v then JArr [] else v))
      | _ \<Rightarrow> Some (JArr []))"

definition newNoteBlock :: "string \<Rightarrow> User \<Rightarrow> json \<Rightarrow> SharedNoteBlock" where
  "newNoteBlock fresh u ns =
     \<lparr>id_block = fresh,
      authorId = uid_user u,
      authorName = or_default (displayName u) ''Anonymous'',
      notes_block = ns\<rparr>"

definition notesFailed :: "Client \<Rightarrow> Client" where
  "notesFailed c = c\<lparr>isLoading := False, error := Some ''Failed to generate notes from AI.''\<rparr>"

definition handleGenerateNotes :: "nat \<Rightarrow> OracleResponse \<Rightarrow> string \<Rightarrow> bool \<Rightarrow> World \<Rightarrow> World" where
  "handleGenerateNotes i response fresh ok w =
     (let c = clients w i in
      if trim (notesInput c) = [] then w
      else
        let w0 = upd_client i (\<lambda>c. c\<lparr>isLoading := True, error := None\<rparr>) w in
        case response of
          Rejects \<Rightarrow> upd_client i notesFailed w0
        | NotJson \<Rightarrow> upd_client i notesFailed w0
        | Json parsedNotes \<Rightarrow>
            (case notes_or_empty parsedNotes of
               None \<Rightarrow> upd_client i notesFailed w0
             | Some ns \<Rightarrow>
                 if roomCode c = [] then upd_client i notesFailed w0
                 else
                   let (done, w1) =
                         updateDoc ok (roomCode c)
                           (\<lambda>s. s\<lparr>sharedNotes :=
                                     arrayUnion (sharedNotes s) (newNoteBlock fresh (user c) ns)\<rparr>)
                           w0
                   in if done then upd_client i (\<lambda>c. c\<lparr>notesInput := [], isLoading := False\<rparr>) w1
                      else upd_client i notesFailed w1))"

section \<open>Runs\<close>

text \<open>
  What a user can do to a client: press Create Room, type into the room-code field
  (\<^verbatim>\<open>onChange={e => setInputRoomCode(e.target.value.toUpperCase())}\<close>), submit the join
  form, press Leave Room. The lobby, with the first three, is rendered only while
  \<open>roomCode\<close> is empty; the room view, with the last, otherwise. Every client starts with
  the initial values of its \<open>useState\<close> hooks, and the collection starts empty.
\<close>

datatype Action =
    CreateRoom nat draw draw draw nat bool
  | TypeRoomCode nat string
  | JoinRoom nat bool bool
  | LeaveRoom nat bool

fun step :: "Action \<Rightarrow> World \<Rightarrow> World" where
  "step (CreateRoom i r1 r2 r3 now ok) w =
     (if roomCode (clients w i) = [] then handleCreateRoom i r1 r2 r3 now ok w else w)"
| "step (TypeRoomCode i t) w =
     (if roomCode (clients w i) = []
      then upd_client i (\<lambda>c. c\<lparr>inputRoomCode := toUpperCase t\<rparr>) w else w)"
| "step (JoinRoom i getOk updOk) w =
     (if roomCode (clients w i) = [] then handleJoinRoom i getOk updOk w else w)"
| "step (LeaveRoom i ok) w =
     (if roomCode (clients w i) \<noteq> [] then handleLeaveRoom i ok w else w)"

fun run :: "Action list \<Rightarrow> World \<Rightarrow> World" where
  "run [] w = w"
| "run (a # as) w = run as (step a w)"

definition lobbyClient :: "User \<Rightarrow> Client" where
  "lobbyClient u =
     \<lparr>user = u, roomCode = [], inputRoomCode = [], sessionData = None,
      unsubscribeRef = None, notesInput = [], isLoading = False, error = None\<rparr>"

definition initialWorld :: "(nat \<Rightarrow> User) \<Rightarrow> World" where
  "initialWorld users = \<lparr>store = Map.empty, clients = (\<lambda>i. lobbyClient (users i)), calls = []\<rparr>"

text \<open>
  Users for the examples: client \<open>0\<close> is Alice's, clients \<open>1\<close> and \<open>2\<close> are Bob's (two
  devices), every other client is Carol's.
\<close>

definition alice :: User where
  "alice = \<lparr>uid_user = ''uidA'', displayName = Some ''Alice'', photoURL_user = None\<rparr>"

definition bob :: User where
  "bob = \<lparr>uid_user = ''uidB'', displayName = Some ''Bob'', photoURL_user = None\<rparr>"

definition carol :: User where
  "carol = \<lparr>uid_user = ''uidC'', displayName = None, photoURL_user = None\<rparr>"

definition example_users :: "nat \<Rightarrow> User" where
  "example_users i = (if i = 0 then alice else if i = 1 \<or> i = 2 then bob else carol)"

definition setNotesInput :: "nat \<Rightarrow> string \<Rightarrow> World \<Rightarrow> World" where
  "setNotesInput i t w = upd_client i (\<lambda>c. c\<lparr>notesInput := t\<rparr>) w"

section \<open>Invariants of a run\<close>

text \<open>
  A stored session is hosted when it has a participant and its host is one of them. A
  client is in step with the store when it listens to the room it is in and to nothing
  while it is in the lobby, and the snapshot it holds of a stored session is that session.
\<close>

definition hosted :: "Session \<Rightarrow> bool" where
  "hosted d = (participants d \<noteq> [] \<and> hostId d \<in> set (map uid (participants d)))"

definition synced :: "(string \<rightharpoonup> Session) \<Rightarrow> Client \<Rightarrow> bool" where
  "synced st c =
     (unsubscribeRef c = (if roomCode c = [] then None else Some (roomCode c)) \<and>
      (roomCode c \<noteq> [] \<longrightarrow> (\<forall>d. st (roomCode c) = Some d \<longrightarrow> sessionData c = Some d)))"

definition world_inv :: "World \<Rightarrow> bool" where
  "world_inv w =
     ((\<forall>code d. store w code = Some d \<longrightarrow> hosted d) \<and> (\<forall>i. synced (store w) (clients w i)))"

text \<open>
  What a leave writes under the room code when the store accepts it and the leaver's
  snapshot \<open>d\<close> is the stored session: the session after the transfer of the host role,
  nothing (the document is deleted), or the session without the leaver.
\<close>

definition leave_write :: "Client \<Rightarrow> Session \<Rightarrow> Session option" where
  "leave_write c d =
     (let np = filter (\<lambda>p. uid p \<noteq> uid_user (user c)) (participants d) in
      if uid_user (user c) = hostId d \<and> np \<noteq> [] then Some (transferHost (uid (hd np)) np d)
      else if np = [] then None
      else Some (removeParticipant (uid_user (user c)) np d))"

section \<open>Example worlds\<close>

text \<open>
  Alice creates a room with three draws of \<open>0\<close> (the code \<open>HAPPY-FOX-10\<close>); Bob joins
  it from his first device; Carol joins it. \<open>session_A\<close>, \<open>session_AB\<close> and \<open>session_ABC\<close>
  are the documents stored after each step, and \<open>session_B\<close> the one stored when Alice has
  left the room of Alice and Bob. In \<open>notes_world\<close> Bob has typed a text to make notes
  from; \<open>light_reply\<close> is an oracle reply that follows the schema.
\<close>

definition room_A :: World where
  "room_A = run [CreateRoom 0 draw_zero draw_zero draw_zero 1 True] (initialWorld example_users)"

definition room_AB :: World where
  "room_AB = run [TypeRoomCode 1 ''happy-fox-10'', JoinRoom 1 True True] room_A"

definition room_ABC :: World where
  "room_ABC = run [TypeRoomCode 3 ''happy-fox-10'', JoinRoom 3 True True] room_AB"

definition session_A :: Session where
  "session_A = initialSessionData alice 1"

definition session_AB :: Session where
  "session_AB =
     session_A\<lparr>participants := [newParticipant alice, newParticipant bob],
               permissions := [''uidA'' \<mapsto> \<lparr>canShare = True\<rparr>, ''uidB'' \<mapsto> \<lparr>canShare = False\<rparr>]\<rparr>"

definition session_ABC :: Session where
  "session_ABC =
     session_A\<lparr>participants := [newParticipant alice, newParticipant bob, newParticipant carol],
               permissions := [''uidA'' \<mapsto> \<lparr>canShare = True\<rparr>, ''uidB'' \<mapsto> \<lparr>canShare = False\<rparr>,
                               ''uidC'' \<mapsto> \<lparr>canShare = False\<rparr>]\<rparr>"

definition session_B :: Session where
  "session_B =
     session_A\<lparr>hostId := ''uidB'', participants := [newParticipant bob],
               permissions := [''uidA'' \<mapsto> \<lparr>canShare = True\<rparr>, ''uidB'' \<mapsto> \<lparr>canShare = True\<rparr>]\<rparr>"

definition notes_world :: World where
  "notes_world = setNotesInput 1 ''Photosynthesis'' room_AB"

definition light_reply :: json where
  "light_reply = JObj [(''notes'', JArr [JStr ''Light''])]"

section \<open>The format of a room code\<close>

lemma nat_to_string_two_digits:
  "10 \<le> n \<Longrightarrow> n < 100 \<Longrightarrow> nat_to_string n = [digit_char (n div 10), digit_char (n mod 10)]"
  by (subst nat_to_string.simps) simp

lemma is_digit_digit_char: "d < 10 \<Longrightarrow> is_digit (digit_char d)"
proof -
  assume "d < 10"
  then have "d \<in> {0, 1, 2, 3, 4, 5, 6, 7, 8, 9}" by auto
  then show ?thesis
    by (auto simp: is_digit_def digit_char_def)
qed

lemma word1_upper: "w \<in> set word1 \<Longrightarrow> w \<noteq> [] \<and> (\<forall>c \<in> set w. is_upper c)"
  by (auto simp: word1_def is_upper_def)

lemma word2_upper: "w \<in> set word2 \<Longrightarrow> w \<noteq> [] \<and> (\<forall>c \<in> set w. is_upper c)"
  by (auto simp: word2_def is_upper_def)

lemma hyphen_not_upper: "\<not> is_upper (CHR ''-'')"
  by (simp add: is_upper_def)

lemma matches_code_formatI:
  assumes "a \<noteq> []" "\<forall>c \<in> set a. is_upper c" "b \<noteq> []" "\<forall>c \<in> set b. is_upper c"
    and "is_digit d1" "is_digit d2"
  shows "matches_code_format (a @ ''-'' @ b @ ''-'' @ [d1, d2])"
proof -
  have ta: "takeWhile is_upper (a @ CHR ''-'' # r) = a" for r
    using assms(2) hyphen_not_upper by simp
  have da: "dropWhile is_upper (a @ CHR ''-'' # r) = CHR ''-'' # r" for r
    using assms(2) hyphen_not_upper by simp
  have tb: "takeWhile is_upper (b @ CHR ''-'' # r) = b" for r
    using assms(4) hyphen_not_upper by simp
  have db: "dropWhile is_upper (b @ CHR ''-'' # r) = CHR ''-'' # r" for r
    using assms(4) hyphen_not_upper by simp
  show ?thesis
    using assms(1,3,5,6) by (simp add: matches_code_format_def ta da tb db)
qed

text \<open>
  The function accepts exactly the strings of the format: a non-empty word of upper-case
  letters, a hyphen, a second such word, a hyphen, two digits.
\<close>

lemma matches_code_format_iff:
  "matches_code_format s \<longleftrightarrow>
     (\<exists>a b d1 d2. s = a @ ''-'' @ b @ ''-'' @ [d1, d2] \<and>
        a \<noteq> [] \<and> (\<forall>c \<in> set a. is_upper c) \<and>
        b \<noteq> [] \<and> (\<forall>c \<in> set b. is_upper c) \<and> is_digit d1 \<and> is_digit d2)"
proof
  assume m: "matches_code_format s"
  let ?a = "takeWhile is_upper s"
  from m obtain t1 where t1: "?a \<noteq> []" "dropWhile is_upper s = CHR ''-'' # t1"
    by (auto simp: matches_code_format_def split: list.splits)
  let ?b = "takeWhile is_upper t1"
  from m t1 obtain d1 d2 where d: "?b \<noteq> []" "dropWhile is_upper t1 = [CHR ''-'', d1, d2]"
    "is_digit d1" "is_digit d2"
    by (auto simp: matches_code_format_def split: list.splits)
  have "s = ?a @ dropWhile is_upper s" by simp
  also have "\<dots> = ?a @ ''-'' @ (?b @ dropWhile is_upper t1)" using t1(2) by simp
  finally have "s = ?a @ ''-'' @ ?b @ ''-'' @ [d1, d2]" using d(2) by simp
  moreover have "\<forall>c \<in> set ?a. is_upper c" "\<forall>c \<in> set ?b. is_upper c"
    by (auto dest: set_takeWhileD)
  ultimately show "\<exists>a b d1 d2. s = a @ ''-'' @ b @ ''-'' @ [d1, d2] \<and>
        a \<noteq> [] \<and> (\<forall>c \<in> set a. is_upper c) \<and>
        b \<noteq> [] \<and> (\<forall>c \<in> set b. is_upper c) \<and> is_digit d1 \<and> is_digit d2"
    using t1(1) d(1,3,4) by blast
next
  assume "\<exists>a b d1 d2. s = a @ ''-'' @ b @ ''-'' @ [d1, d2] \<and>
        a \<noteq> [] \<and> (\<forall>c \<in> set a. is_upper c) \<and>
        b \<noteq> [] \<and> (\<forall>c \<in> set b. is_upper c) \<and> is_digit d1 \<and> is_digit d2"
  then show "matches_code_format s"
    using matches_code_formatI by blast
qed

subsection \<open>Products of doubles\<close>

lemma is_draw_range: "is_draw d \<Longrightarrow> 0 \<le> draw_value d \<and> draw_value d < 1"
  by (cases d) (simp add: is_draw_def draw_value_def)

lemma times_double_exact:
  "m * n < 2 ^ 53 \<Longrightarrow> times_double (m, e) n = draw_value (m, e) * of_nat n"
  by (simp add: times_double_def draw_value_def round53_def)

lemma floor_times_double:
  "\<lfloor>times_double (m, e) n\<rfloor> = int (round53 (m * n) div 2 ^ e)"
proof -
  have "\<lfloor>(of_nat (round53 (m * n)) :: rat) / of_nat (2 ^ e)\<rfloor> = int (round53 (m * n) div 2 ^ e)"
    by (rule floor_divide_of_nat_eq)
  then show ?thesis by (simp add: times_double_def)
qed

lemma bit_length_bound: "p < 2 ^ k \<Longrightarrow> bit_length p \<le> k"
proof (induction k arbitrary: p)
  case 0
  then show ?case by (simp add: bit_length.simps)
next
  case (Suc k)
  show ?case
  proof (cases "p = 0")
    case True
    then show ?thesis by (simp add: bit_length.simps)
  next
    case False
    from Suc.prems have "p div 2 < 2 ^ k" by simp
    then have "bit_length (p div 2) \<le> k" by (rule Suc.IH)
    with False show ?thesis by (subst bit_length.simps) simp
  qed
qed

text \<open>Rounding to the nearest moves a number up by at most half a unit of the last place.\<close>

lemma round53_upper: "2 * round53 p \<le> 2 * p + 2 ^ (bit_length p - 53)"
proof (cases "p < 2 ^ 53")
  case True
  then show ?thesis by (simp add: round53_def)
next
  case False
  define s where "s = bit_length p - 53"
  define q where "q = p div 2 ^ s"
  define r where "r = p mod 2 ^ s"
  have p: "p = q * 2 ^ s + r" unfolding q_def r_def by (rule div_mult_mod_eq [symmetric])
  have r: "r < 2 ^ s" by (simp add: r_def)
  show ?thesis
  proof (cases "2 ^ s < 2 * r \<or> (2 * r = 2 ^ s \<and> odd q)")
    case True
    then have "2 ^ s \<le> 2 * r" by auto
    moreover have "round53 p = (q + 1) * 2 ^ s"
      using False True by (simp add: round53_def Let_def s_def q_def r_def)
    ultimately show ?thesis
      unfolding s_def [symmetric] by (simp add: p algebra_simps)
  next
    case down: False
    have "round53 p = q * 2 ^ s"
      using False down by (simp add: round53_def Let_def s_def q_def r_def)
    then show ?thesis unfolding s_def [symmetric] by (simp add: p)
  qed
qed

text \<open>
  \<open>round53\<close> moves a number down by at most half a unit of the last place as well, and
  its result has a significand of 53 bits (\<open>2 ^ 53\<close> itself is the next power of two): it
  is the nearest number of that form.
\<close>

lemma less_bit_length: "p < 2 ^ bit_length p"
proof (induction p rule: bit_length.induct)
  case (1 n)
  show ?case
  proof (cases "n = 0")
    case True
    then show ?thesis by (simp add: bit_length.simps)
  next
    case False
    with 1 have "n div 2 < 2 ^ bit_length (n div 2)" by simp
    then have "n < 2 * 2 ^ bit_length (n div 2)" by linarith
    with False show ?thesis by (subst bit_length.simps) simp
  qed
qed

lemma round53_lower: "2 * p \<le> 2 * round53 p + 2 ^ (bit_length p - 53)"
proof (cases "p < 2 ^ 53")
  case True
  then show ?thesis by (simp add: round53_def)
next
  case False
  define s where "s = bit_length p - 53"
  define q where "q = p div 2 ^ s"
  define r where "r = p mod 2 ^ s"
  have p: "p = q * 2 ^ s + r" unfolding q_def r_def by (rule div_mult_mod_eq [symmetric])
  have r: "r < 2 ^ s" by (simp add: r_def)
  show ?thesis
  proof (cases "2 ^ s < 2 * r \<or> (2 * r = 2 ^ s \<and> odd q)")
    case True
    have "round53 p = (q + 1) * 2 ^ s"
      using False True by (simp add: round53_def Let_def s_def q_def r_def)
    then show ?thesis
      unfolding s_def [symmetric] using r by (simp add: p algebra_simps)
  next
    case down: False
    then have "2 * r \<le> 2 ^ s" by auto
    moreover have "round53 p = q * 2 ^ s"
      using False down by (simp add: round53_def Let_def s_def q_def r_def)
    ultimately show ?thesis unfolding s_def [symmetric] by (simp add: p)
  qed
qed

lemma round53_significand:
  assumes "2 ^ 53 \<le> p"
  shows "\<exists>q. q \<le> 2 ^ 53 \<and> round53 p = q * 2 ^ (bit_length p - 53)"
proof -
  define s where "s = bit_length p - 53"
  have "53 \<le> bit_length p"
  proof (rule ccontr)
    assume "\<not> 53 \<le> bit_length p"
    then have "(2::nat) ^ bit_length p \<le> 2 ^ 53" by (intro power_increasing) simp_all
    with less_bit_length [of p] assms show False by linarith
  qed
  then have "bit_length p = 53 + s" by (simp add: s_def)
  with less_bit_length [of p] have "p < 2 ^ 53 * 2 ^ s" by (simp add: power_add)
  then have q: "p div 2 ^ s < 2 ^ 53" by (simp add: less_mult_imp_div_less)
  define up where "up = (2 ^ s < 2 * (p mod 2 ^ s) \<or> (2 * (p mod 2 ^ s) = 2 ^ s \<and> odd (p div 2 ^ s)))"
  have "round53 p = (if up then p div 2 ^ s + 1 else p div 2 ^ s) * 2 ^ s"
    using assms by (simp add: round53_def Let_def s_def up_def)
  moreover have "(if up then p div 2 ^ s + 1 else p div 2 ^ s) \<le> 2 ^ 53"
    using q by simp
  ultimately show ?thesis unfolding s_def [symmetric] by blast
qed

text \<open>
  The rounded product of a draw and \<open>n\<close> stays below \<open>n\<close> when \<open>n\<close> is not a power of two:
  the exact product is at least \<open>n / 2 ^ e\<close> below \<open>n\<close>, and rounding adds less than that.
\<close>

lemma round53_below:
  assumes "is_draw (m, e)" "n < 2 ^ k" "2 ^ k < 2 * n"
  shows "round53 (m * n) < n * 2 ^ e"
proof -
  have m: "m < 2 ^ 53" "m < 2 ^ e" using assms(1) by (simp_all add: is_draw_def)
  have "m * n < 2 ^ 53 * 2 ^ k"
    using m(1) assms(2) by (intro mult_strict_mono) simp_all
  then have "m * n < 2 ^ (53 + k)" by (simp add: power_add)
  then have "bit_length (m * n) \<le> 53 + k" by (rule bit_length_bound)
  then have "(2::nat) ^ (bit_length (m * n) - 53) \<le> 2 ^ k"
    by (intro power_increasing) simp_all
  with round53_upper [of "m * n"] have "2 * round53 (m * n) \<le> 2 * (m * n) + 2 ^ k"
    by linarith
  also have "\<dots> < 2 * (m * n) + 2 * n" using assms(3) by simp
  also have "\<dots> = 2 * ((m + 1) * n)" by (simp add: algebra_simps)
  also have "\<dots> \<le> 2 * (2 ^ e * n)" using m(2) by (intro mult_le_mono) simp_all
  finally show ?thesis by (simp add: mult.commute)
qed

lemma draw_index:
  assumes "is_draw d" "n < 2 ^ k" "2 ^ k < 2 * n"
  shows "0 \<le> \<lfloor>times_double d n\<rfloor> \<and> nat \<lfloor>times_double d n\<rfloor> < n"
proof -
  obtain m e where d: "d = (m, e)" by (cases d)
  have "round53 (m * n) < n * 2 ^ e"
    using assms unfolding d by (rule round53_below)
  then have "(of_nat (round53 (m * n)) :: rat) < of_nat (n * 2 ^ e)"
    by (simp only: of_nat_less_iff)
  then have "times_double d n < of_nat n"
    by (simp add: d times_double_def divide_less_eq)
  then have "\<lfloor>times_double d n\<rfloor> < int n" by (simp add: floor_less_iff)
  moreover have "0 \<le> times_double d n" by (simp add: d times_double_def)
  ultimately show ?thesis by (simp add: nat_less_iff)
qed

lemma word_draw:
  assumes "is_draw d" "length xs = 6"
  shows "index_str xs \<lfloor>times_double d (length xs)\<rfloor> \<in> set xs"
  using draw_index [OF assms(1), of 6 3] assms(2) by (simp add: index_str_def)

lemma suffix_draw:
  assumes "is_draw d"
  shows "\<exists>d1 d2. int_to_string (\<lfloor>times_double d 90\<rfloor> + 10) = [d1, d2] \<and>
           is_digit d1 \<and> is_digit d2"
proof -
  have b: "0 \<le> \<lfloor>times_double d 90\<rfloor> \<and> nat \<lfloor>times_double d 90\<rfloor> < 90"
    using draw_index [OF assms, of 90 7] by simp
  define n where "n = nat (\<lfloor>times_double d 90\<rfloor> + 10)"
  have n: "10 \<le> n" "n < 100" using b unfolding n_def by linarith+
  have "\<not> \<lfloor>times_double d 90\<rfloor> + 10 < 0" using b by linarith
  then have "int_to_string (\<lfloor>times_double d 90\<rfloor> + 10) = nat_to_string n"
    unfolding int_to_string_def n_def by (simp only: if_False)
  also have "\<dots> = [digit_char (n div 10), digit_char (n mod 10)]"
    using n by (rule nat_to_string_two_digits)
  finally show ?thesis
    using n by (auto intro!: is_digit_digit_char)
qed

subsection \<open>Draws whose product rounds up\<close>

text \<open>
  The doubles \<open>0.8333333333333333\<close>, \<open>0.6666666666666666\<close> and \<open>0.18888888888888888\<close>. Their
  exact products with \<open>6\<close>, \<open>6\<close> and \<open>90\<close> lie just below \<open>5\<close>, \<open>4\<close> and \<open>17\<close>, and the products
  of doubles are \<open>5\<close>, \<open>4\<close> and \<open>17\<close>: the program returns \<open>SPARK-STONE-27\<close>. The largest
  double below \<open>1\<close> gives the last words and the suffix \<open>99\<close>.
\<close>

lemma round53_examples:
  "round53 22517998136852478 = 22517998136852480"
  "round53 36028797018963966 = 36028797018963968"
  "round53 76561193665298430 = 76561193665298432"
  "round53 54043195528445946 = 54043195528445944"
  "round53 810647932926689190 = 810647932926689152"
  by (simp_all add: round53_def Let_def bit_length.simps)

lemma exact_product_example: "\<lfloor>draw_value (3752999689475413, 52) * 6\<rfloor> = 4"
  unfolding draw_value_def by (rule floor_unique) simp_all

lemma word_examples:
  "index_str word1 0 = ''HAPPY''" "index_str word2 0 = ''FOX''"
  "index_str word1 5 = ''SPARK''" "index_str word2 4 = ''STONE''"
  "index_str word2 5 = ''CLOUD''"
  by code_simp+

lemma suffix_examples:
  "int_to_string 10 = ''10''" "int_to_string 27 = ''27''" "int_to_string 99 = ''99''"
  by code_simp+

lemma word_lengths: "length word1 = 6" "length word2 = 6"
  by (simp_all add: word1_def word2_def)

lemma code_000: "generateRoomCode draw_zero draw_zero draw_zero = ''HAPPY-FOX-10''"
  by (simp add: generateRoomCode_def draw_zero_def floor_times_double round53_def
      word_examples suffix_examples)

lemma code_rounded_up:
  "generateRoomCode (3752999689475413, 52) (6004799503160661, 53) (850679929614427, 52) =
     ''SPARK-STONE-27''"
  by (simp add: generateRoomCode_def floor_times_double word_lengths round53_examples
      word_examples suffix_examples)

lemma code_largest_draws:
  "generateRoomCode (9007199254740991, 53) (9007199254740991, 53) (9007199254740991, 53) =
     ''SPARK-CLOUD-99''"
  by (simp add: generateRoomCode_def floor_times_double word_lengths round53_examples
      word_examples suffix_examples)

text \<open>
  C9. Whatever the three draws of the random source are, the generated room code has the
  format \<open>WORD-WORD-NN\<close>, that is \<open>^[A-Z]+-[A-Z]+-\d{2}$\<close>: two non-empty runs of
  upper-case letters, each followed by a hyphen, and then exactly two digits. The draws
  are doubles and the products are the rounded products of doubles.
\<close>

theorem generateRoomCode_format:
  assumes "is_draw r1" "is_draw r2" "is_draw r3"
  shows "matches_code_format (generateRoomCode r1 r2 r3)"
proof -
  have a: "index_str word1 \<lfloor>times_double r1 (length word1)\<rfloor> \<in> set word1"
    using assms(1) word_lengths(1) by (rule word_draw)
  have b: "index_str word2 \<lfloor>times_double r2 (length word2)\<rfloor> \<in> set word2"
    using assms(2) word_lengths(2) by (rule word_draw)
  obtain d1 d2 where d: "int_to_string (\<lfloor>times_double r3 90\<rfloor> + 10) = [d1, d2]"
    "is_digit d1" "is_digit d2"
    using suffix_draw [OF assms(3)] by blast
  show ?thesis
    unfolding generateRoomCode_def d(1)
    using word1_upper [OF a] word2_upper [OF b] d(2,3)
    by (intro matches_code_formatI) auto
qed

theorem generateRoomCode_format_witness:
  "is_draw (3752999689475413, 52) \<and> is_draw (6004799503160661, 53) \<and>
   is_draw (850679929614427, 52) \<and>
   matches_code_format
     (generateRoomCode (3752999689475413, 52) (6004799503160661, 53) (850679929614427, 52))"
  using generateRoomCode_format
    [of "(3752999689475413, 52)" "(6004799503160661, 53)" "(850679929614427, 52)"]
  by (simp add: is_draw_def)

section \<open>Facts about the store and the listeners\<close>

lemma store_upd_client [simp]: "store (upd_client i f w) = store w"
  by (simp add: upd_client_def)

lemma calls_upd_client [simp]: "calls (upd_client i f w) = calls w"
  by (simp add: upd_client_def)

lemma clients_upd_client [simp]:
  "clients (upd_client i f w) j = (if j = i then f (clients w i) else clients w j)"
  by (simp add: upd_client_def)

lemma store_record_call [simp]: "store (record_call c w) = store w"
  by (simp add: record_call_def)

lemma clients_record_call [simp]: "clients (record_call c w) = clients w"
  by (simp add: record_call_def)

lemma calls_record_call [simp]: "calls (record_call c w) = calls w @ [c]"
  by (simp add: record_call_def)

lemma store_deliver [simp]: "store (deliver code w) = store w"
  by (simp add: deliver_def)

lemma calls_deliver [simp]: "calls (deliver code w) = calls w"
  by (simp add: deliver_def)

lemma clients_deliver [simp]:
  "clients (deliver code w) j =
     (if unsubscribeRef (clients w j) = Some code
      then snapshot_listener (store w code) (clients w j) else clients w j)"
  by (simp add: deliver_def)

lemma store_subscribeToSession [simp]: "store (subscribeToSession i code w) = store w"
  by (simp add: subscribeToSession_def)

lemma store_unsubscribe [simp]: "store (unsubscribe i w) = store w"
  by (simp add: unsubscribe_def split: option.splits)

lemma store_updateDoc:
  "store (snd (updateDoc ok code f w)) =
     (case store w code of
        Some d \<Rightarrow> if ok then (store w)(code \<mapsto> f d) else store w
      | None \<Rightarrow> store w)"
  by (simp add: updateDoc_def Let_def split: option.splits)

lemma store_batchDelete:
  "store (batchDelete ok code w) = (if ok then (store w)(code := None) else store w)"
  by (auto simp add: batchDelete_def Let_def)

lemma generateRoomCode_not_empty: "generateRoomCode r1 r2 r3 \<noteq> []"
  by (simp add: generateRoomCode_def)

section \<open>The example worlds, evaluated\<close>

lemma typed_code: "toUpperCase ''happy-fox-10'' = ''HAPPY-FOX-10''"
  by code_simp

lemma joined_code: "toUpperCase (trim ''HAPPY-FOX-10'') = ''HAPPY-FOX-10''"
  by code_simp

lemma notes_typed: "trim ''Photosynthesis'' = ''Photosynthesis''"
  by code_simp

lemma trim_examples:
  "trim [CHR 0xA0, CHR ''a'', CHR 0x09] = ''a''" "trim [CHR 0xA0] = []"
  by code_simp+

lemma toUpperCase_examples:
  "toUpperCase [CHR 0xE9] = [CHR 0xC9]" "toUpperCase [CHR 0xDF] = ''SS''"
  "toUpperCase [CHR 0xF7] = [CHR 0xF7]" "toUpperCase ''a-Z 9'' = ''A-Z 9''"
  by code_simp+

lemmas example_defs =
  initialWorld_def lobbyClient_def example_users_def alice_def bob_def carol_def
  handleCreateRoom_def handleJoinRoom_def handleLeaveRoom_def setDoc_def updateDoc_def
  batchDelete_def deliver_def record_call_def upd_client_def subscribeToSession_def
  snapshot_listener_def unsubscribe_def transferHost_def removeParticipant_def arrayUnion_def
  newParticipant_def or_default_def initialSessionData_def setError_def setRoomCode_def
  view_participants_def view_hostId_def isHost_def Let_def code_000 typed_code joined_code

lemma room_A_facts:
  "store room_A ''HAPPY-FOX-10'' = Some session_A"
  "roomCode (clients room_A 0) = ''HAPPY-FOX-10''"
  "sessionData (clients room_A 0) = Some session_A"
  "user (clients room_A 0) = alice"
  by (simp_all add: room_A_def session_A_def example_defs)

lemma room_AB_facts:
  "store room_AB ''HAPPY-FOX-10'' = Some session_AB"
  "roomCode (clients room_AB 1) = ''HAPPY-FOX-10''"
  "sessionData (clients room_AB 1) = Some session_AB"
  "user (clients room_AB 1) = bob"
  by (simp_all add: room_AB_def room_A_def session_AB_def session_A_def example_defs)

lemma room_ABC_facts:
  "store room_ABC ''HAPPY-FOX-10'' = Some session_ABC"
  "roomCode (clients room_ABC 0) = ''HAPPY-FOX-10''"
  "sessionData (clients room_ABC 0) = Some session_ABC"
  "user (clients room_ABC 0) = alice"
  by (simp_all add: room_ABC_def room_AB_def room_A_def session_ABC_def session_A_def example_defs)

lemma notes_world_facts:
  "store notes_world ''HAPPY-FOX-10'' = Some session_AB"
  "roomCode (clients notes_world 1) = ''HAPPY-FOX-10''"
  "user (clients notes_world 1) = bob"
  "notesInput (clients notes_world 1) = ''Photosynthesis''"
  by (simp_all add: notes_world_def setNotesInput_def room_AB_facts del: One_nat_def)

section \<open>Leaving a room\<close>

text \<open>
  C10. A leave by a client that is not in a session, because its room code is empty or
  because it holds no snapshot, changes nothing: the store, every client (the
  subscription of the caller included) and the record of the calls made to the store
  are what they were.
\<close>

theorem handleLeaveRoom_not_in_session:
  assumes "roomCode (clients w i) = [] \<or> sessionData (clients w i) = None"
  shows "handleLeaveRoom i ok w = w"
  using assms by (auto simp add: handleLeaveRoom_def)

theorem handleLeaveRoom_not_in_session_witness:
  "(roomCode (clients (initialWorld example_users) 0) = [] \<or>
    sessionData (clients (initialWorld example_users) 0) = None) \<and>
   handleLeaveRoom 0 True (initialWorld example_users) = initialWorld example_users"
  using handleLeaveRoom_not_in_session [of "initialWorld example_users" 0 True]
  by (simp add: initialWorld_def lobbyClient_def)

lemma store_handleLeaveRoom:
  assumes "roomCode (clients w i) \<noteq> []" "sessionData (clients w i) = Some d"
  shows "store (handleLeaveRoom i ok w) =
     (let c = clients w i;
          newParticipants = filter (\<lambda>p. uid p \<noteq> uid_user (user c)) (participants d)
      in if uid_user (user c) = hostId d \<and> newParticipants \<noteq> [] then
           store (snd (updateDoc ok (roomCode c)
                         (transferHost (uid (hd newParticipants)) newParticipants)
                         (unsubscribe i w)))
         else if newParticipants = [] then store (batchDelete ok (roomCode c) (unsubscribe i w))
         else store (snd (updateDoc ok (roomCode c)
                            (removeParticipant (uid_user (user c)) newParticipants)
                            (unsubscribe i w))))"
  using assms
  by (simp add: handleLeaveRoom_def Let_def isHost_def view_hostId_def view_participants_def)

text \<open>
  C5. The host \<open>H\<close> of a stored session leaves, and its snapshot lists the participants
  \<open>[H, B, C]\<close>, three different users. Then the stored session has \<open>B\<close>, the earliest
  remaining joiner, as its host, \<open>B\<close> may share, and the participants are \<open>[B, C]\<close> in that
  order.
\<close>

theorem handleLeaveRoom_host_failover:
  assumes "roomCode (clients w i) = code" "code \<noteq> []"
    and "sessionData (clients w i) = Some d" "store w code = Some d0"
    and "participants d = [H, B, C]" "hostId d = uid H"
    and "uid_user (user (clients w i)) = uid H"
    and "uid B \<noteq> uid H" "uid C \<noteq> uid H"
  shows "\<exists>d'. store (handleLeaveRoom i True w) code = Some d' \<and>
           hostId d' = uid B \<and>
           permissions d' (uid B) = Some \<lparr>canShare = True\<rparr> \<and>
           participants d' = [B, C]"
  using assms
  by (simp add: store_handleLeaveRoom [where d = d] Let_def store_updateDoc transferHost_def)

theorem handleLeaveRoom_host_failover_witness:
  "roomCode (clients room_ABC 0) = ''HAPPY-FOX-10'' \<and> ''HAPPY-FOX-10'' \<noteq> [] \<and>
   sessionData (clients room_ABC 0) = Some session_ABC \<and>
   store room_ABC ''HAPPY-FOX-10'' = Some session_ABC \<and>
   participants session_ABC = [newParticipant alice, newParticipant bob, newParticipant carol] \<and>
   hostId session_ABC = uid (newParticipant alice) \<and>
   uid_user (user (clients room_ABC 0)) = uid (newParticipant alice) \<and>
   uid (newParticipant bob) \<noteq> uid (newParticipant alice) \<and>
   uid (newParticipant carol) \<noteq> uid (newParticipant alice) \<and>
   (\<exists>d'. store (handleLeaveRoom 0 True room_ABC) ''HAPPY-FOX-10'' = Some d' \<and>
         hostId d' = uid (newParticipant bob) \<and>
         permissions d' (uid (newParticipant bob)) = Some \<lparr>canShare = True\<rparr> \<and>
         participants d' = [newParticipant bob, newParticipant carol])"
proof -
  have h: "participants session_ABC = [newParticipant alice, newParticipant bob, newParticipant carol]"
    "hostId session_ABC = uid (newParticipant alice)"
    "uid_user (user (clients room_ABC 0)) = uid (newParticipant alice)"
    "uid (newParticipant bob) \<noteq> uid (newParticipant alice)"
    "uid (newParticipant carol) \<noteq> uid (newParticipant alice)"
    by (simp_all add: room_ABC_facts session_ABC_def session_A_def initialSessionData_def
        newParticipant_def alice_def bob_def carol_def)
  have n: "''HAPPY-FOX-10'' \<noteq> []" by simp
  show ?thesis
    using handleLeaveRoom_host_failover [OF room_ABC_facts(2) n room_ABC_facts(3,1) h] h
      room_ABC_facts
    by simp
qed

lemma client_handleCreateRoom:
  "clients (handleCreateRoom i r1 r2 r3 now True w) i =
     (clients w i)\<lparr>roomCode := generateRoomCode r1 r2 r3,
                    unsubscribeRef := Some (generateRoomCode r1 r2 r3),
                    sessionData := Some (initialSessionData (user (clients w i)) now)\<rparr>"
  by (simp add: handleCreateRoom_def setDoc_def Let_def subscribeToSession_def
      snapshot_listener_def setRoomCode_def)

text \<open>
  C6. When a client creates a room and leaves it at once, no session is stored under the
  code afterwards. More generally, when the only participant of a client's snapshot is
  its own user and the client leaves, no session is stored under its room code
  afterwards. (The store accepts the calls.)
\<close>

theorem last_participant_leaves:
  "store (handleLeaveRoom i True (handleCreateRoom i r1 r2 r3 now True w))
     (generateRoomCode r1 r2 r3) = None \<and>
   (\<forall>d p. roomCode (clients w i) \<noteq> [] \<and> sessionData (clients w i) = Some d \<and>
          participants d = [p] \<and> uid p = uid_user (user (clients w i)) \<longrightarrow>
          store (handleLeaveRoom i True w) (roomCode (clients w i)) = None)"
proof (intro conjI allI impI)
  let ?w1 = "handleCreateRoom i r1 r2 r3 now True w"
  let ?d = "initialSessionData (user (clients w i)) now"
  have "roomCode (clients ?w1 i) \<noteq> []" "sessionData (clients ?w1 i) = Some ?d"
    by (simp_all add: client_handleCreateRoom generateRoomCode_not_empty)
  then show "store (handleLeaveRoom i True ?w1) (generateRoomCode r1 r2 r3) = None"
    by (simp add: store_handleLeaveRoom [where d = ?d] Let_def store_batchDelete
        client_handleCreateRoom initialSessionData_def newParticipant_def)
next
  fix d p
  assume "roomCode (clients w i) \<noteq> [] \<and> sessionData (clients w i) = Some d \<and>
          participants d = [p] \<and> uid p = uid_user (user (clients w i))"
  then show "store (handleLeaveRoom i True w) (roomCode (clients w i)) = None"
    by (simp add: store_handleLeaveRoom [where d = d] Let_def store_batchDelete)
qed

theorem last_participant_leaves_witness:
  "roomCode (clients room_A 0) \<noteq> [] \<and> sessionData (clients room_A 0) = Some session_A \<and>
   participants session_A = [newParticipant alice] \<and>
   uid (newParticipant alice) = uid_user (user (clients room_A 0)) \<and>
   store (handleLeaveRoom 0 True room_A) (roomCode (clients room_A 0)) = None"
proof -
  have h: "roomCode (clients room_A 0) \<noteq> [] \<and> sessionData (clients room_A 0) = Some session_A \<and>
      participants session_A = [newParticipant alice] \<and>
      uid (newParticipant alice) = uid_user (user (clients room_A 0))"
    by (simp add: room_A_facts session_A_def initialSessionData_def newParticipant_def)
  from last_participant_leaves [of 0 draw_zero draw_zero draw_zero 0 room_A] h
  have "store (handleLeaveRoom 0 True room_A) (roomCode (clients room_A 0)) = None"
    by blast
  with h show ?thesis by simp
qed

section \<open>Creating a room\<close>

lemma store_handleCreateRoom:
  "store (handleCreateRoom i r1 r2 r3 now ok w) =
     (if ok then (store w)(generateRoomCode r1 r2 r3 \<mapsto> initialSessionData (user (clients w i)) now)
      else store w)"
  by (simp add: handleCreateRoom_def setDoc_def Let_def)

text \<open>
  C4, as the code has it. \<open>handleCreateRoom\<close> neither looks the generated code up nor
  draws again: when the store accepts the \<open>setDoc\<close>, the initial session of the caller is
  what is stored under the code, whatever was stored there before, and the sessions
  under every other code are left as they were.
\<close>

theorem handleCreateRoom_overwrites:
  "store (handleCreateRoom i r1 r2 r3 now True w) =
     (store w)(generateRoomCode r1 r2 r3 \<mapsto> initialSessionData (user (clients w i)) now)"
  by (simp add: store_handleCreateRoom)

text \<open>
  C4 as stated fails: Alice's room is stored under \<open>HAPPY-FOX-10\<close>; Bob creates a room
  and his draws give the same code; the session stored under the code is then Bob's,
  with Bob as its host and only participant.
\<close>

theorem create_replaces_session:
  "map_option hostId (store room_A ''HAPPY-FOX-10'') = Some ''uidA'' \<and>
   map_option hostId (store (run [CreateRoom 1 draw_zero draw_zero draw_zero 2 True] room_A) ''HAPPY-FOX-10'') =
     Some ''uidB'' \<and>
   map_option participants (store (run [CreateRoom 1 draw_zero draw_zero draw_zero 2 True] room_A) ''HAPPY-FOX-10'') =
     Some [newParticipant bob]"
  by (simp add: room_A_def example_defs)

section \<open>Joining a room\<close>

lemma store_handleJoinRoom:
  assumes "toUpperCase (trim (inputRoomCode (clients w i))) = code" "code \<noteq> []"
    and "store w code = Some d"
  shows "store (handleJoinRoom i True True w) =
     (store w)(code \<mapsto>
        d\<lparr>participants := arrayUnion (participants d) (newParticipant (user (clients w i))),
          permissions := (permissions d)(uid_user (user (clients w i)) \<mapsto> \<lparr>canShare = False\<rparr>)\<rparr>)"
  using assms by (simp add: handleJoinRoom_def Let_def updateDoc_def)

lemma client_handleJoinRoom:
  assumes "toUpperCase (trim (inputRoomCode (clients w i))) = code" "code \<noteq> []"
    and "store w code = Some d"
  shows "inputRoomCode (clients (handleJoinRoom i True True w) i) = inputRoomCode (clients w i)"
    and "user (clients (handleJoinRoom i True True w) i) = user (clients w i)"
  using assms
  by (simp_all add: handleJoinRoom_def Let_def updateDoc_def subscribeToSession_def
      snapshot_listener_def setRoomCode_def)

lemma count_list_arrayUnion:
  "count_list (arrayUnion xs x) x = (if x \<in> set xs then count_list xs x else 1)"
  by (simp add: arrayUnion_def)

text \<open>
  C3, as the code has it. A client joins a stored session twice with the same identity
  \<open>p\<close>, which the session lists at most once. Afterwards the session lists \<open>p\<close> exactly
  once, the permissions of every other uid are what they were, and the entry of \<open>p\<close> is
  \<open>canShare = false\<close>, whatever it was before: each join writes that entry anew.
\<close>

theorem handleJoinRoom_twice:
  assumes "toUpperCase (trim (inputRoomCode (clients w i))) = code" "code \<noteq> []"
    and "store w code = Some d"
    and "p = newParticipant (user (clients w i))"
    and "count_list (participants d) p \<le> 1"
  shows "\<exists>d2. store (handleJoinRoom i True True (handleJoinRoom i True True w)) code = Some d2 \<and>
           count_list (participants d2) p = 1 \<and>
           permissions d2 (uid p) = Some \<lparr>canShare = False\<rparr> \<and>
           (\<forall>u. u \<noteq> uid p \<longrightarrow> permissions d2 u = permissions d u)"
proof -
  let ?w1 = "handleJoinRoom i True True w"
  let ?d1 = "d\<lparr>participants := arrayUnion (participants d) p,
               permissions := (permissions d)(uid_user (user (clients w i)) \<mapsto> \<lparr>canShare = False\<rparr>)\<rparr>"
  have s1: "store ?w1 code = Some ?d1"
    using store_handleJoinRoom [OF assms(1,2,3)] assms(4) by simp
  have c1: "toUpperCase (trim (inputRoomCode (clients ?w1 i))) = code"
    "user (clients ?w1 i) = user (clients w i)"
    using client_handleJoinRoom [OF assms(1,2,3)] assms(1) by simp_all
  have one: "count_list (arrayUnion (participants d) p) p = 1"
  proof (cases "p \<in> set (participants d)")
    case True
    then have "count_list (participants d) p \<noteq> 0" by (simp add: count_list_0_iff)
    with assms(5) True show ?thesis by (simp add: count_list_arrayUnion)
  next
    case False
    then show ?thesis by (simp add: count_list_arrayUnion)
  qed
  have mem: "p \<in> set (arrayUnion (participants d) p)"
    by (simp add: arrayUnion_def)
  have u: "uid p = uid_user (user (clients w i))"
    using assms(4) by (simp add: newParticipant_def)
  show ?thesis
    using store_handleJoinRoom [OF c1(1) assms(2) s1] c1(2) assms(4) one mem u
    by (simp add: arrayUnion_def)
qed

theorem handleJoinRoom_twice_witness:
  "toUpperCase (trim (inputRoomCode (clients (step (TypeRoomCode 1 ''happy-fox-10'') room_A) 1))) =
     ''HAPPY-FOX-10'' \<and> ''HAPPY-FOX-10'' \<noteq> [] \<and>
   store (step (TypeRoomCode 1 ''happy-fox-10'') room_A) ''HAPPY-FOX-10'' = Some session_A \<and>
   newParticipant bob =
     newParticipant (user (clients (step (TypeRoomCode 1 ''happy-fox-10'') room_A) 1)) \<and>
   count_list (participants session_A) (newParticipant bob) \<le> 1 \<and>
   (\<exists>d2. store (handleJoinRoom 1 True True
                  (handleJoinRoom 1 True True (step (TypeRoomCode 1 ''happy-fox-10'') room_A)))
           ''HAPPY-FOX-10'' = Some d2 \<and>
         count_list (participants d2) (newParticipant bob) = 1 \<and>
         permissions d2 (uid (newParticipant bob)) = Some \<lparr>canShare = False\<rparr> \<and>
         (\<forall>u. u \<noteq> uid (newParticipant bob) \<longrightarrow> permissions d2 u = permissions session_A u))"
proof -
  let ?w = "step (TypeRoomCode 1 ''happy-fox-10'') room_A"
  have h: "toUpperCase (trim (inputRoomCode (clients ?w 1))) = ''HAPPY-FOX-10''"
    "''HAPPY-FOX-10'' \<noteq> []"
    "store ?w ''HAPPY-FOX-10'' = Some session_A"
    "newParticipant bob = newParticipant (user (clients ?w 1))"
    "count_list (participants session_A) (newParticipant bob) \<le> 1"
    by (simp_all add: room_A_def session_A_def example_defs)
  show ?thesis
    using handleJoinRoom_twice [OF h] h by simp
qed

text \<open>
  C3 as stated fails: Bob has joined Alice's room and Alice has left, so Bob is the host
  and may share. Bob joins the room again from his second device: his \<open>canShare\<close> flag is
  false afterwards.
\<close>

theorem second_join_resets_canShare:
  "map_option (\<lambda>d. permissions d ''uidB'')
     (store (run [LeaveRoom 0 True] room_AB) ''HAPPY-FOX-10'') =
     Some (Some \<lparr>canShare = True\<rparr>) \<and>
   map_option (\<lambda>d. permissions d ''uidB'')
     (store (run [LeaveRoom 0 True, TypeRoomCode 2 ''happy-fox-10'', JoinRoom 2 True True] room_AB)
        ''HAPPY-FOX-10'') =
     Some (Some \<lparr>canShare = False\<rparr>)"
  by (simp add: room_AB_def room_A_def example_defs)

section \<open>Sharing notes\<close>

text \<open>
  C2, as the code has it. \<open>handleGenerateNotes\<close> does not read \<open>permissions\<close>. For a client
  in a stored session that has typed a text, a reply from which notes can be read and
  an accepted write append the block to \<open>sharedNotes\<close> (the id is new) and leave no
  error, whatever the \<open>canShare\<close> flag of the caller is.
\<close>

theorem handleGenerateNotes_ignores_permissions:
  assumes "roomCode (clients w i) = code" "code \<noteq> []" "store w code = Some d"
    and "trim (notesInput (clients w i)) \<noteq> []"
    and "notes_or_empty parsedNotes = Some ns"
    and "fresh \<notin> set (map id_block (sharedNotes d))"
  shows "\<exists>d'. store (handleGenerateNotes i (Json parsedNotes) fresh True w) code = Some d' \<and>
           sharedNotes d' = sharedNotes d @ [newNoteBlock fresh (user (clients w i)) ns] \<and>
           error (clients (handleGenerateNotes i (Json parsedNotes) fresh True w) i) = None"
proof -
  have "id_block (newNoteBlock fresh (user (clients w i)) ns) = fresh"
    by (simp add: newNoteBlock_def)
  then have "newNoteBlock fresh (user (clients w i)) ns \<notin> set (sharedNotes d)"
    using assms(6) by (metis image_eqI set_map)
  then show ?thesis
    using assms(1-5)
    by (simp add: handleGenerateNotes_def Let_def updateDoc_def arrayUnion_def
        snapshot_listener_def split: option.splits)
qed

theorem handleGenerateNotes_ignores_permissions_witness:
  "roomCode (clients notes_world 1) = ''HAPPY-FOX-10'' \<and> ''HAPPY-FOX-10'' \<noteq> [] \<and>
   store notes_world ''HAPPY-FOX-10'' = Some session_AB \<and>
   trim (notesInput (clients notes_world 1)) \<noteq> [] \<and>
   notes_or_empty light_reply = Some (JArr [JStr ''Light'']) \<and>
   ''id-1'' \<notin> set (map id_block (sharedNotes session_AB)) \<and>
   permissions session_AB (uid_user (user (clients notes_world 1))) = Some \<lparr>canShare = False\<rparr> \<and>
   (\<exists>d'. store (handleGenerateNotes 1 (Json light_reply) ''id-1'' True notes_world)
           ''HAPPY-FOX-10'' = Some d' \<and>
         sharedNotes d' = sharedNotes session_AB @
           [newNoteBlock ''id-1'' (user (clients notes_world 1)) (JArr [JStr ''Light''])] \<and>
         error (clients (handleGenerateNotes 1 (Json light_reply) ''id-1'' True notes_world) 1) =
           None)"
proof -
  have h: "roomCode (clients notes_world 1) = ''HAPPY-FOX-10''" "''HAPPY-FOX-10'' \<noteq> []"
    "store notes_world ''HAPPY-FOX-10'' = Some session_AB"
    "trim (notesInput (clients notes_world 1)) \<noteq> []"
    "notes_or_empty light_reply = Some (JArr [JStr ''Light''])"
    "''id-1'' \<notin> set (map id_block (sharedNotes session_AB))"
    by (simp_all add: notes_world_facts notes_typed notes_or_empty_def light_reply_def falsy_def
        session_AB_def session_A_def initialSessionData_def del: One_nat_def)
  have p: "permissions session_AB (uid_user (user (clients notes_world 1))) =
      Some \<lparr>canShare = False\<rparr>"
    by (simp add: notes_world_facts session_AB_def bob_def del: One_nat_def)
  show ?thesis
    using handleGenerateNotes_ignores_permissions [OF h] h p by (simp del: One_nat_def)
qed

text \<open>
  C2 as stated fails: Bob has joined Alice's room, his \<open>canShare\<close> flag is false and the
  room has no notes. Bob generates notes: the room has one block of notes afterwards and
  Bob's client shows no error.
\<close>

theorem notes_shared_without_permission:
  "map_option (\<lambda>d. (permissions d ''uidB'', length (sharedNotes d)))
     (store notes_world ''HAPPY-FOX-10'') = Some (Some \<lparr>canShare = False\<rparr>, 0) \<and>
   map_option (\<lambda>d. length (sharedNotes d))
     (store (handleGenerateNotes 1 (Json light_reply) ''id-1'' True notes_world)
        ''HAPPY-FOX-10'') = Some 1 \<and>
   error (clients (handleGenerateNotes 1 (Json light_reply) ''id-1'' True notes_world) 1) = None"
  by (simp add: notes_world_facts notes_typed handleGenerateNotes_def Let_def notes_or_empty_def
      light_reply_def falsy_def updateDoc_def arrayUnion_def session_AB_def session_A_def
      initialSessionData_def snapshot_listener_def del: One_nat_def)

text \<open>
  C8, as the code has it. When the call of the oracle is rejected, or its text is not
  JSON, or the text is the JSON value null, the handler makes no call to the store: the
  store and the snapshot of every client are unchanged.
\<close>

theorem handleGenerateNotes_unparseable:
  assumes "response = Rejects \<or> response = NotJson \<or> response = Json JNull"
  shows "store (handleGenerateNotes i response fresh ok w) = store w \<and>
         calls (handleGenerateNotes i response fresh ok w) = calls w \<and>
         (\<forall>j. sessionData (clients (handleGenerateNotes i response fresh ok w) j) =
               sessionData (clients w j))"
  using assms
  by (auto simp: handleGenerateNotes_def Let_def notes_or_empty_def notesFailed_def)

theorem handleGenerateNotes_unparseable_witness:
  "(NotJson = Rejects \<or> NotJson = NotJson \<or> NotJson = Json JNull) \<and>
   store (handleGenerateNotes 1 NotJson ''id-1'' True notes_world) = store notes_world \<and>
   calls (handleGenerateNotes 1 NotJson ''id-1'' True notes_world) = calls notes_world \<and>
   (\<forall>j. sessionData (clients (handleGenerateNotes 1 NotJson ''id-1'' True notes_world) j) =
         sessionData (clients notes_world j))"
  using handleGenerateNotes_unparseable [of NotJson 1 "''id-1''" True notes_world] by simp

text \<open>
  C8 as stated fails: the reply is the JSON object without properties, which violates
  the schema (\<open>notes\<close> is required). \<open>parsedNotes.notes || []\<close> reads it as no notes, and a
  block with an empty list of notes is written to the room.
\<close>

theorem schema_violation_is_written:
  "map_option sharedNotes (store notes_world ''HAPPY-FOX-10'') = Some [] \<and>
   map_option sharedNotes
     (store (handleGenerateNotes 1 (Json (JObj [])) ''id-1'' True notes_world) ''HAPPY-FOX-10'') =
     Some [newNoteBlock ''id-1'' bob (JArr [])]"
  by (simp add: notes_world_facts notes_typed handleGenerateNotes_def Let_def notes_or_empty_def
      updateDoc_def arrayUnion_def session_AB_def session_A_def initialSessionData_def
      del: One_nat_def)

section \<open>The host of a stored session\<close>

lemma clients_updateDoc:
  "clients (snd (updateDoc ok code f w)) j =
     (case store w code of
        Some d \<Rightarrow>
          if ok \<and> unsubscribeRef (clients w j) = Some code
          then snapshot_listener (Some (f d)) (clients w j) else clients w j
      | None \<Rightarrow> clients w j)"
  by (simp add: updateDoc_def Let_def split: option.splits)

lemma synced_write:
  assumes "synced st c"
  shows "synced (st(code := v)) (if unsubscribeRef c = Some code then snapshot_listener v c else c)"
  using assms
  by (cases v) (auto simp: synced_def snapshot_listener_def split: if_splits)

lemma synced_lobby:
  "roomCode c = [] \<Longrightarrow> unsubscribeRef c = None \<Longrightarrow> synced st c"
  by (simp add: synced_def)

lemma hosted_initial: "hosted (initialSessionData u now)"
  by (simp add: hosted_def initialSessionData_def newParticipant_def)

lemma hosted_join:
  "hosted d \<Longrightarrow> hosted (d\<lparr>participants := arrayUnion (participants d) p, permissions := m\<rparr>)"
  by (auto simp: hosted_def arrayUnion_def)

lemma world_inv_initial: "world_inv (initialWorld users)"
  by (simp add: world_inv_def initialWorld_def lobbyClient_def synced_def)

lemma world_inv_frame:
  assumes "world_inv w" "store w' = store w"
    and "\<And>j. roomCode (clients w' j) = roomCode (clients w j)"
    and "\<And>j. unsubscribeRef (clients w' j) = unsubscribeRef (clients w j)"
    and "\<And>j. sessionData (clients w' j) = sessionData (clients w j)"
  shows "world_inv w'"
  using assms by (simp add: world_inv_def synced_def)

lemma world_inv_setError:
  "world_inv w \<Longrightarrow> world_inv (upd_client i (setError msg) w)"
  by (erule world_inv_frame) (simp_all add: setError_def)

lemma world_inv_record_call:
  "world_inv w \<Longrightarrow> world_inv (record_call c w)"
  by (erule world_inv_frame) simp_all

lemma world_inv_type:
  "world_inv w \<Longrightarrow> world_inv (upd_client i (\<lambda>c. c\<lparr>inputRoomCode := t\<rparr>) w)"
  by (erule world_inv_frame) simp_all

subsection \<open>Create\<close>

lemma world_inv_create_ok:
  assumes "world_inv w" "roomCode (clients w i) = []"
  shows "world_inv (handleCreateRoom i r1 r2 r3 now True w)"
proof -
  let ?code = "generateRoomCode r1 r2 r3"
  let ?d = "initialSessionData (user (clients w i)) now"
  let ?w' = "handleCreateRoom i r1 r2 r3 now True w"
  have st: "store ?w' = (store w)(?code \<mapsto> ?d)"
    by (simp add: store_handleCreateRoom)
  have h: "\<forall>code d. store ?w' code = Some d \<longrightarrow> hosted d"
    using assms(1) by (auto simp: st world_inv_def hosted_initial)
  have s: "synced (store ?w') (clients ?w' j)" for j
  proof (cases "j = i")
    case True
    then show ?thesis
      by (simp add: st client_handleCreateRoom synced_def generateRoomCode_not_empty)
  next
    case False
    have "synced (store w) (clients w j)" using assms(1) by (simp add: world_inv_def)
    from synced_write [OF this, of ?code "Some ?d"] False show ?thesis
      by (simp add: st handleCreateRoom_def setDoc_def Let_def subscribeToSession_def
          split: if_splits)
  qed
  show ?thesis using h s by (simp add: world_inv_def)
qed

lemma world_inv_create:
  assumes "world_inv w" "roomCode (clients w i) = []"
  shows "world_inv (handleCreateRoom i r1 r2 r3 now ok w)"
proof (cases ok)
  case False
  then show ?thesis
    using assms(1)
    by (simp add: world_inv_def handleCreateRoom_def setDoc_def Let_def synced_def setError_def)
next
  case True
  then show ?thesis using world_inv_create_ok [OF assms] by simp
qed

subsection \<open>Join\<close>

lemma world_inv_join_ok:
  assumes "world_inv w"
    and "toUpperCase (trim (inputRoomCode (clients w i))) = code" "code \<noteq> []"
    and "store w code = Some d"
  shows "world_inv (handleJoinRoom i True True w)"
proof -
  let ?u = "user (clients w i)"
  let ?d = "d\<lparr>participants := arrayUnion (participants d) (newParticipant ?u),
               permissions := (permissions d)(uid_user ?u \<mapsto> \<lparr>canShare = False\<rparr>)\<rparr>"
  let ?w' = "handleJoinRoom i True True w"
  have st: "store ?w' = (store w)(code \<mapsto> ?d)"
    using store_handleJoinRoom [OF assms(2,3,4)] .
  have "hosted d" using assms(1,4) by (simp add: world_inv_def)
  then have "hosted ?d" by (rule hosted_join)
  then have h: "\<forall>k x. store ?w' k = Some x \<longrightarrow> hosted x"
    using assms(1) by (auto simp: st world_inv_def)
  have s: "synced (store ?w') (clients ?w' j)" for j
  proof (cases "j = i")
    case True
    then show ?thesis
      using assms(2,3,4)
      by (simp add: st synced_def handleJoinRoom_def Let_def updateDoc_def
          subscribeToSession_def snapshot_listener_def setRoomCode_def)
  next
    case False
    have "synced (store w) (clients w j)" using assms(1) by (simp add: world_inv_def)
    from synced_write [OF this, of code "Some ?d"] False show ?thesis
      using assms(2,3,4)
      by (simp add: st handleJoinRoom_def Let_def updateDoc_def subscribeToSession_def
          split: if_splits)
  qed
  show ?thesis using h s by (simp add: world_inv_def)
qed

lemma world_inv_join:
  assumes "world_inv w"
  shows "world_inv (handleJoinRoom i getOk updOk w)"
proof -
  let ?code = "toUpperCase (trim (inputRoomCode (clients w i)))"
  consider (empty) "?code = []"
    | (get) "?code \<noteq> []" "\<not> getOk"
    | (missing) "?code \<noteq> []" "getOk" "store w ?code = None"
    | (upd) d where "?code \<noteq> []" "getOk" "store w ?code = Some d" "\<not> updOk"
    | (ok) d where "?code \<noteq> []" "getOk" "store w ?code = Some d" "updOk"
    by (cases "store w ?code") auto
  then show ?thesis
  proof cases
    case empty
    then show ?thesis
      using world_inv_setError [OF assms] by (simp add: handleJoinRoom_def)
  next
    case get
    then show ?thesis
      using world_inv_record_call [OF assms] by (simp add: handleJoinRoom_def)
  next
    case missing
    then show ?thesis
      using world_inv_setError [OF world_inv_record_call [OF assms]]
      by (simp add: handleJoinRoom_def)
  next
    case upd
    then show ?thesis
      using world_inv_setError [OF world_inv_record_call [OF world_inv_record_call [OF assms]]]
      by (simp add: handleJoinRoom_def updateDoc_def Let_def)
  next
    case ok
    then show ?thesis
      using world_inv_join_ok [OF assms refl, of i d] by simp
  qed
qed

subsection \<open>Leave\<close>

lemma hosted_transferHost:
  "np \<noteq> [] \<Longrightarrow> hosted (transferHost (uid (hd np)) np d)"
  by (cases np) (simp_all add: hosted_def transferHost_def)

lemma hosted_removeParticipant:
  assumes "hosted d" "hostId d \<noteq> leaver"
  shows "hosted (removeParticipant leaver (filter (\<lambda>p. uid p \<noteq> leaver) (participants d)) d)"
proof -
  obtain h where h: "h \<in> set (participants d)" "uid h = hostId d"
    using assms(1) by (auto simp: hosted_def)
  then have "h \<in> set (filter (\<lambda>p. uid p \<noteq> leaver) (participants d))"
    using assms(2) by simp
  with h(2) show ?thesis
    by (force simp: hosted_def removeParticipant_def filter_empty_conv)
qed

lemma hosted_leave_write:
  assumes "hosted d" "leave_write c d = Some d'"
  shows "hosted d'"
proof -
  let ?np = "filter (\<lambda>p. uid p \<noteq> uid_user (user c)) (participants d)"
  show ?thesis
  proof (cases "uid_user (user c) = hostId d")
    case True
    with assms(2) have "?np \<noteq> []" "d' = transferHost (uid (hd ?np)) ?np d"
      by (auto simp: leave_write_def Let_def split: if_splits)
    then show ?thesis by (simp add: hosted_transferHost)
  next
    case False
    with assms(2) have "d' = removeParticipant (uid_user (user c)) ?np d"
      by (auto simp: leave_write_def Let_def split: if_splits)
    with False assms(1) show ?thesis
      using hosted_removeParticipant [of d "uid_user (user c)"] by simp
  qed
qed

lemmas leave_defs = handleLeaveRoom_def Let_def isHost_def view_hostId_def view_participants_def
  updateDoc_def batchDelete_def unsubscribe_def leave_write_def

lemma leave_client:
  assumes "roomCode (clients w i) \<noteq> []" "sessionData (clients w i) = Some d"
  shows "roomCode (clients (handleLeaveRoom i ok w) i) = []"
    and "unsubscribeRef (clients (handleLeaveRoom i ok w) i) = None"
  using assms by (auto simp: leave_defs split: option.splits)

lemma leave_no_write:
  assumes "roomCode (clients w i) = code" "code \<noteq> []" "sessionData (clients w i) = Some d"
    and "store w code = None \<or> \<not> ok"
  shows "store (handleLeaveRoom i ok w) = store w"
    and "j \<noteq> i \<Longrightarrow> clients (handleLeaveRoom i ok w) j = clients w j"
  using assms by (auto simp: leave_defs split: option.splits)

lemma leave_write_store:
  assumes "roomCode (clients w i) = code" "code \<noteq> []" "sessionData (clients w i) = Some d"
    and "store w code = Some d"
  shows "store (handleLeaveRoom i True w) = (store w)(code := leave_write (clients w i) d)"
  using assms by (auto simp: leave_defs split: option.splits)

lemma leave_write_clients:
  assumes "roomCode (clients w i) = code" "code \<noteq> []" "sessionData (clients w i) = Some d"
    and "store w code = Some d" "j \<noteq> i"
  shows "clients (handleLeaveRoom i True w) j =
     (if unsubscribeRef (clients w j) = Some code
      then snapshot_listener (leave_write (clients w i) d) (clients w j) else clients w j)"
  using assms by (auto simp: leave_defs split: option.splits)

lemma world_inv_leave_unwritten:
  assumes "world_inv w"
    and "roomCode (clients w i) \<noteq> []" "sessionData (clients w i) = Some d"
    and "store w (roomCode (clients w i)) = None \<or> \<not> ok"
  shows "world_inv (handleLeaveRoom i ok w)"
proof -
  let ?w' = "handleLeaveRoom i ok w"
  have sy: "synced (store w) (clients w j)" for j
    using assms(1) by (simp add: world_inv_def)
  have "synced (store ?w') (clients ?w' j)" for j
    using sy [of j] leave_client [OF assms(2,3), of ok] leave_no_write [OF refl assms(2,3,4)]
    by (cases "j = i") (simp_all add: synced_lobby)
  then show ?thesis
    using assms(1) leave_no_write(1) [OF refl assms(2,3,4)] by (simp add: world_inv_def)
qed

lemma world_inv_leave_written:
  assumes "world_inv w"
    and "roomCode (clients w i) \<noteq> []" "sessionData (clients w i) = Some d"
    and "store w (roomCode (clients w i)) = Some d0"
  shows "world_inv (handleLeaveRoom i True w)"
proof -
  let ?code = "roomCode (clients w i)"
  let ?v = "leave_write (clients w i) d"
  let ?w' = "handleLeaveRoom i True w"
  have sy: "synced (store w) (clients w j)" for j
    using assms(1) by (simp add: world_inv_def)
  have "d0 = d" using sy [of i] assms(2,3,4) by (simp add: synced_def)
  with assms(4) have s: "store w ?code = Some d" by simp
  have st: "store ?w' = (store w)(?code := ?v)"
    using leave_write_store [OF refl assms(2,3) s] .
  have "hosted d" using assms(1) s by (simp add: world_inv_def)
  then have h: "\<forall>k x. store ?w' k = Some x \<longrightarrow> hosted x"
    using assms(1) by (auto simp: st world_inv_def hosted_leave_write)
  have "synced (store ?w') (clients ?w' j)" for j
  proof (cases "j = i")
    case True
    then show ?thesis using leave_client [OF assms(2,3), of True] by (simp add: synced_lobby)
  next
    case False
    have "synced ((store w)(?code := ?v))
            (if unsubscribeRef (clients w j) = Some ?code
             then snapshot_listener ?v (clients w j) else clients w j)"
      using sy [of j] by (rule synced_write)
    then show ?thesis
      by (simp only: st leave_write_clients [OF refl assms(2,3) s False])
  qed
  with h show ?thesis by (simp add: world_inv_def)
qed

lemma world_inv_leave:
  assumes "world_inv w"
  shows "world_inv (handleLeaveRoom i ok w)"
proof (cases "roomCode (clients w i) = [] \<or> sessionData (clients w i) = None")
  case True
  then show ?thesis using assms by (simp add: handleLeaveRoom_def)
next
  case False
  then obtain d where c: "roomCode (clients w i) \<noteq> []" "sessionData (clients w i) = Some d"
    by auto
  show ?thesis
  proof (cases "store w (roomCode (clients w i)) = None \<or> \<not> ok")
    case True
    then show ?thesis using world_inv_leave_unwritten [OF assms c] by simp
  next
    case False
    then obtain d0 where "store w (roomCode (clients w i)) = Some d0" "ok = True" by auto
    then show ?thesis using world_inv_leave_written [OF assms c] by simp
  qed
qed

subsection \<open>Runs\<close>

lemma world_inv_step: "world_inv w \<Longrightarrow> world_inv (step a w)"
  by (cases a) (simp_all add: world_inv_create world_inv_join world_inv_leave world_inv_type)

lemma world_inv_run: "world_inv w \<Longrightarrow> world_inv (run acts w)"
  by (induction acts arbitrary: w) (simp_all add: world_inv_step)

text \<open>
  C7. After any sequence of create, type, join and leave actions of any clients, with
  the store accepting or rejecting each call, every stored session that has a
  participant has one of its participants as its host.
\<close>

theorem host_is_participant:
  assumes "store (run acts (initialWorld users)) code = Some d" "participants d \<noteq> []"
  shows "hostId d \<in> set (map uid (participants d))"
proof -
  have "world_inv (run acts (initialWorld users))"
    using world_inv_initial by (rule world_inv_run)
  with assms(1) have "hosted d" by (simp add: world_inv_def)
  then show ?thesis by (simp add: hosted_def)
qed

theorem host_is_participant_witness:
  "store (run [CreateRoom 0 draw_zero draw_zero draw_zero 1 True, TypeRoomCode 1 ''happy-fox-10'', JoinRoom 1 True True,
               LeaveRoom 0 True] (initialWorld example_users)) ''HAPPY-FOX-10'' = Some session_B \<and>
   participants session_B \<noteq> [] \<and>
   hostId session_B \<in> set (map uid (participants session_B))"
proof -
  have h: "store (run [CreateRoom 0 draw_zero draw_zero draw_zero 1 True, TypeRoomCode 1 ''happy-fox-10'',
                       JoinRoom 1 True True, LeaveRoom 0 True] (initialWorld example_users))
             ''HAPPY-FOX-10'' = Some session_B"
    "participants session_B \<noteq> []"
    by (simp_all add: session_B_def session_A_def example_defs)
  show ?thesis
    using host_is_participant [OF h] h by simp
qed

section \<open>The permissions of a departed host\<close>

text \<open>
  The two branches of \<open>handleLeaveRoom\<close> that write a session, on a session whose
  \<open>permissions\<close> keys are the uids of its participants: removing a participant keeps
  them so; transferring the host role leaves the departed host's uid as an extra key.
\<close>

lemma removeParticipant_keys:
  assumes "dom (permissions d) = set (map uid (participants d))"
  shows "dom (permissions (removeParticipant leaver
                 (filter (\<lambda>p. uid p \<noteq> leaver) (participants d)) d)) =
         set (map uid (participants (removeParticipant leaver
                 (filter (\<lambda>p. uid p \<noteq> leaver) (participants d)) d)))"
  using assms by (auto simp: removeParticipant_def)

lemma transferHost_keys:
  assumes "dom (permissions d) = set (map uid (participants d))"
    and "leaver \<in> set (map uid (participants d))"
    and "np = filter (\<lambda>p. uid p \<noteq> leaver) (participants d)" "np \<noteq> []"
  shows "dom (permissions (transferHost (uid (hd np)) np d)) =
         insert leaver (set (map uid (participants (transferHost (uid (hd np)) np d))))"
    and "leaver \<notin> set (map uid (participants (transferHost (uid (hd np)) np d)))"
proof -
  have "hd np \<in> set np" using assms(4) by simp
  then have "uid (hd np) \<in> set (map uid (participants d))"
    unfolding assms(3) by auto
  then show "dom (permissions (transferHost (uid (hd np)) np d)) =
         insert leaver (set (map uid (participants (transferHost (uid (hd np)) np d))))"
    using assms(1,2) unfolding assms(3) by (auto simp: transferHost_def)
  show "leaver \<notin> set (map uid (participants (transferHost (uid (hd np)) np d)))"
    unfolding assms(3) by (auto simp: transferHost_def)
qed

text \<open>
  C1. The keys of \<open>permissions\<close> are to be the uids of \<open>participants\<close> in every stored
  session. The branch of \<open>handleLeaveRoom\<close> for a participant that is not the host deletes
  \<open>permissions.${user.uid}\<close>; the branch that transfers the host role does not. Alice
  creates a room, Bob joins it, Alice leaves: the stored session has Bob as its host and
  only participant, and \<open>permissions\<close> still has Alice's key.
\<close>

theorem host_leave_keeps_departed_permission:
  "map_option (\<lambda>d. (hostId d, map uid (participants d), dom (permissions d)))
     (store (run [CreateRoom 0 draw_zero draw_zero draw_zero 1 True, TypeRoomCode 1 ''happy-fox-10'', JoinRoom 1 True True,
                  LeaveRoom 0 True] (initialWorld example_users)) ''HAPPY-FOX-10'') =
   Some (''uidB'', [''uidB''], {''uidA'', ''uidB''})"
  by (simp add: example_defs insert_commute)

end
